theory Spec2Isabelle
  imports Main "HOL-Library.Log_Nat"
begin

section \<open>JavaScript numbers\<close>

text \<open>
  Every arithmetic result of the program is an IEEE-754 binary64 value. A finite double is
  modelled by the rational it denotes; \<open>fl\<close> rounds a rational to the nearest double
  (53 significant bits, ties to even). Overflow and subnormals are left out: the operands
  here are slot counts, seconds and small constants. Signed zero is not distinguished, no
  operation of the program observes it.
\<close>

definition ilog2 :: "rat \<Rightarrow> int" where
  "ilog2 x = (case quotient_of x of (p, q) \<Rightarrow>
     (let k = bitlen p - bitlen q
      in if 2 powi k \<le> x then k else k - 1))"

definition round_half_even :: "rat \<Rightarrow> int" where
  "round_half_even m = (let f = \<lfloor>m\<rfloor>; d = m - of_int f
     in if d < 1 / 2 then f else if 1 / 2 < d then f + 1 else if even f then f else f + 1)"

definition fl :: "rat \<Rightarrow> rat" where
  "fl x = (if x = 0 then 0
           else let a = \<bar>x\<bar>; u = 2 powi (ilog2 a - 52)
                in sgn x * of_int (round_half_even (a / u)) * u)"

text \<open>\<open>a / b\<close> and \<open>a * b\<close> on finite doubles, \<open>b\<close> non-zero for the division.\<close>

definition fdiv :: "rat \<Rightarrow> rat \<Rightarrow> rat" where
  "fdiv a b = fl (a / b)"

definition fmul :: "rat \<Rightarrow> rat \<Rightarrow> rat" where
  "fmul a b = fl (a * b)"

text \<open>\<open>Math.round\<close> on a finite double: the nearest integer, a tie going up.\<close>

definition js_round :: "rat \<Rightarrow> int" where
  "js_round x = \<lfloor>x + 1 / 2\<rfloor>"

text \<open>The type \<open>number\<close> where a non-finite value can arise.\<close>

datatype number = Finite rat | PosInfinity | NegInfinity | NaN



fun Math_round :: "number \<Rightarrow> number" where
  "Math_round (Finite x) = Finite (of_int (js_round x))"
| "Math_round n = n"

text \<open>\<open>n || 0\<close>: \<open>NaN\<close> and \<open>0\<close> are falsy.\<close>

fun or_zero :: "number \<Rightarrow> number" where
  "or_zero NaN = Finite 0"
| "or_zero n = n"

section \<open>Arrays and strings\<close>

text \<open>\<open>xs[i]\<close>: \<open>undefined\<close> (here \<open>None\<close>) outside the array.\<close>

definition js_index :: "'a list \<Rightarrow> int \<Rightarrow> 'a option" where
  "js_index xs i = (if 0 \<le> i \<and> i < int (length xs) then Some (xs ! nat i) else None)"

text \<open>
  \<open>text.split(" ")\<close>: the pieces between single spaces, the empty ones included; the
  empty string gives one empty piece. A \<open>char\<close> stands for one UTF-16 code unit.
\<close>

fun split_space :: "string \<Rightarrow> string list" where
  "split_space [] = [[]]"
| "split_space (c # cs) =
     (if c = CHR '' '' then [] # split_space cs
      else (case split_space cs of [] \<Rightarrow> [[c]] | w # ws \<Rightarrow> (c # w) # ws))"

section \<open>Types shared by the hook and the engine\<close>

datatype letter_status = Correct | Incorrect

record ILetterData =
  letter :: string
  typed :: bool
  status :: "letter_status option"

record ITextCoord =
  word :: int
  letter :: int

record IGameResult =
  correct :: nat
  incorrect :: nat
  total :: nat
  wpm :: number
  accuracy :: int

record IGameState =
  "text" :: string
  data :: "ILetterData list list"
  timeLimit :: "nat option"
  counter :: nat
  isRunning :: bool
  isOver :: bool
  currentPos :: ITextCoord

record KeyboardEvent =
  key :: string
  code :: string

datatype exn = TypeError | Thrown string

section \<open>TypingEngine\<close>

text \<open>
  A subscriber is a function of its argument that returns (\<open>None\<close>) or throws
  (\<open>Some err\<close>). The field \<open>calls\<close> is the trace of what the engine did to the outside:
  each callback invocation, by position in its list and with its argument, and each
  \<open>console.error\<close>.
\<close>

type_synonym StateChangeCallback = "IGameState \<Rightarrow> exn option"
type_synonym GameOverCallback = "IGameResult \<Rightarrow> exn option"

datatype call =
  StateChange nat IGameState
| GameOver nat IGameResult
| ConsoleError exn

record TypingEngine =
  state :: IGameState
  intervalId :: "nat option"
  onStateChangeCallbacks :: "StateChangeCallback list"
  onGameOverCallbacks :: "GameOverCallback list"
  calls :: "call list"

definition getInitialState :: IGameState where
  "getInitialState =
     \<lparr>text = [], data = [], timeLimit = None, counter = 0, isRunning = False,
      isOver = False, currentPos = \<lparr>word = 0, letter = 0\<rparr>\<rparr>"

definition placeholder :: ILetterData where
  "placeholder = \<lparr>ILetterData.letter = [], typed = False, status = None\<rparr>"

definition createTextdata :: "string \<Rightarrow> ILetterData list list" where
  "createTextdata txt =
     (let words = split_space txt
      in map (\<lambda>(wordIndex, w).
                let letters = map (\<lambda>c. \<lparr>ILetterData.letter = [c], typed = False, status = None\<rparr>) w
                in if int wordIndex \<noteq> int (length words) - 1 then letters @ [placeholder]
                   else letters)
             (enumerate 0 words))"

text \<open>The \<open>for ... of\<close> loop of \<open>emitState\<close>, with its \<open>try\<close>/\<open>catch\<close> around each call.\<close>

fun emit_loop :: "StateChangeCallback list \<Rightarrow> nat \<Rightarrow> IGameState \<Rightarrow> call list" where
  "emit_loop [] i st = []"
| "emit_loop (cb # cbs) i st =
     StateChange i st # (case cb st of None \<Rightarrow> [] | Some err \<Rightarrow> [ConsoleError err])
       @ emit_loop cbs (Suc i) st"

definition emitState :: "TypingEngine \<Rightarrow> TypingEngine" where
  "emitState eng = eng\<lparr>calls := calls eng @ emit_loop (onStateChangeCallbacks eng) 0 (state eng)\<rparr>"

text \<open>
  \<open>onGameOverCallbacks.forEach(cb => cb(result))\<close>: no handler, so the first callback that
  throws ends the iteration and the exception leaves \<open>forEach\<close>.
\<close>

fun forEach_gameOver :: "GameOverCallback list \<Rightarrow> nat \<Rightarrow> IGameResult \<Rightarrow> call list \<times> exn option" where
  "forEach_gameOver [] i r = ([], None)"
| "forEach_gameOver (cb # cbs) i r =
     (case cb r of
        Some err \<Rightarrow> ([GameOver i r], Some err)
      | None \<Rightarrow> (case forEach_gameOver cbs (Suc i) r of (cs, e) \<Rightarrow> (GameOver i r # cs, e)))"


definition onGameOver :: "GameOverCallback \<Rightarrow> TypingEngine \<Rightarrow> TypingEngine" where
  "onGameOver cb eng = eng\<lparr>onGameOverCallbacks := onGameOverCallbacks eng @ [cb]\<rparr>"

text \<open>The positions of the callbacks a trace shows as invoked, in order.\<close>

fun stateChange_invoked :: "call list \<Rightarrow> nat list" where
  "stateChange_invoked [] = []"
| "stateChange_invoked (StateChange i st # cs) = i # stateChange_invoked cs"
| "stateChange_invoked (c # cs) = stateChange_invoked cs"

fun gameOver_invoked :: "call list \<Rightarrow> nat list" where
  "gameOver_invoked [] = []"
| "gameOver_invoked (GameOver i r # cs) = i # gameOver_invoked cs"
| "gameOver_invoked (c # cs) = gameOver_invoked cs"

subsection \<open>Evaluation\<close>

text \<open>The two nested loops of \<open>getResult\<close>; the accumulator is (correct, incorrect, totalChars).\<close>

fun count_word :: "ILetterData list \<Rightarrow> nat \<times> nat \<times> nat \<Rightarrow> nat \<times> nat \<times> nat" where
  "count_word [] acc = acc"
| "count_word (slot # slots) (c, i, t) =
     (if ILetterData.letter slot = [] then count_word slots (c, i, t)
      else count_word slots
             (if status slot = Some Correct then (c + 1, i, t + 1)
              else if status slot = Some Incorrect then (c, i + 1, t + 1)
              else (c, i, t + 1)))"

fun count_data :: "ILetterData list list \<Rightarrow> nat \<times> nat \<times> nat \<Rightarrow> nat \<times> nat \<times> nat" where
  "count_data [] acc = acc"
| "count_data (w # ws) acc = count_data ws (count_word w acc)"

definition getResult :: "IGameState \<Rightarrow> IGameResult" where
  "getResult st =
     (case count_data (data st) (0, 0, 0) of (correct', incorrect', totalChars) \<Rightarrow>
        let total' = (if 0 < totalChars then totalChars else length (text st));
            elapsedSeconds = max 1 (counter st);
            elapsedMinutes = fdiv (of_nat elapsedSeconds) 60;
            rawWpm = fdiv (fdiv (of_nat correct') 5) elapsedMinutes;
            wpm' = or_zero (Math_round (Finite rawWpm));
            accuracy' = (if correct' + incorrect' = 0 then 0
                         else js_round (fdiv (fmul (of_nat correct') 100) (of_nat (correct' + incorrect'))))
        in \<lparr>correct = correct', incorrect = incorrect', total = total', wpm = wpm',
            accuracy = accuracy'\<rparr>)"

subsection \<open>Lifecycle\<close>

text \<open>
  A method returns the engine after the call and the exception that left it, if any.
  \<open>generateText\<close> and the timer belong to the host: \<open>createNewGame\<close> takes the generated text
  and \<open>start\<close> the handle that \<open>window.setInterval\<close> returns.
\<close>

definition stop :: "TypingEngine \<Rightarrow> TypingEngine" where
  "stop eng = emitState (eng\<lparr>state := (state eng)\<lparr>isRunning := False\<rparr>, intervalId := None\<rparr>)"

definition createNewGame :: "string \<Rightarrow> nat option \<Rightarrow> TypingEngine \<Rightarrow> TypingEngine" where
  "createNewGame txt limit eng =
     (let d = createTextdata txt;
          eng1 = (if isRunning (state eng) then stop eng else eng)
      in emitState (eng1\<lparr>state := getInitialState\<lparr>text := txt, data := d, timeLimit := limit\<rparr>\<rparr>))"

definition start :: "nat \<Rightarrow> TypingEngine \<Rightarrow> TypingEngine" where
  "start handle eng =
     (if isRunning (state eng) then eng
      else (emitState (eng\<lparr>state := (state eng)\<lparr>isRunning := True, isOver := False, counter := 0\<rparr>\<rparr>))
             \<lparr>intervalId := Some handle\<rparr>)"


definition endGame :: "TypingEngine \<Rightarrow> TypingEngine \<times> exn option" where
  "endGame eng =
     (let e1 = stop eng;
          e2 = e1\<lparr>state := (state e1)\<lparr>isOver := True, isRunning := False\<rparr>\<rparr>;
          r = getResult (state e2);
          e3 = emitState e2
      in case forEach_gameOver (onGameOverCallbacks e3) 0 r of
           (cs, err) \<Rightarrow> (e3\<lparr>calls := calls e3 @ cs\<rparr>, err))"

definition tick :: "TypingEngine \<Rightarrow> TypingEngine \<times> exn option" where
  "tick eng =
     (let eng1 = eng\<lparr>state := (state eng)\<lparr>counter := counter (state eng) + 1\<rparr>\<rparr>;
          st = state eng1
      in if (case timeLimit st of None \<Rightarrow> False | Some t \<Rightarrow> t \<noteq> 0 \<and> t \<le> counter st)
         then endGame eng1
         else if data st \<noteq> [] \<and> word (currentPos st) = int (length (data st)) - 1
                 \<and> int (length (data st ! nat (word (currentPos st)))) \<le> ITextCoord.letter (currentPos st)
              then endGame eng1
         else (emitState eng1, None))"

subsection \<open>Input handling\<close>

definition handleKey :: "TypingEngine \<Rightarrow> KeyboardEvent \<Rightarrow> TypingEngine \<times> exn option" where
  "handleKey eng e =
     (let st = state eng; d = data st
      in if d = [] then (eng, None)
         else if isOver st then (eng, None)
         else
           let wordOffset = word (currentPos st);
               letterOffset = ITextCoord.letter (currentPos st)
           in if key e = ''Escape'' then endGame eng
              else if key e = ''Backspace'' then
                (if letterOffset = 0 \<and> wordOffset = 0 then (eng, None)
                 else
                   case (if letterOffset = 0
                         then (let w = max 0 (wordOffset - 1)
                               in case js_index d w of
                                    None \<Rightarrow> Inl TypeError
                                  | Some row \<Rightarrow> Inr (w, int (length row) - 1))
                         else Inr (wordOffset, letterOffset - 1)) of
                     Inl ex \<Rightarrow> (eng, Some ex)
                   | Inr (w, l) \<Rightarrow>
                       let d' = (case js_index d w of
                                   None \<Rightarrow> d
                                 | Some row \<Rightarrow>
                                     (case js_index row l of
                                        None \<Rightarrow> d
                                      | Some slot \<Rightarrow>
                                          d[nat w := row[nat l := slot\<lparr>typed := False, status := None\<rparr>]]))
                       in (emitState (eng\<lparr>state := st\<lparr>data := d',
                                                        currentPos := \<lparr>word = w, letter = l\<rparr>\<rparr>\<rparr>),
                           None))
              else if key e = '' '' \<or> code e = ''Space'' then
                (if letterOffset = 0 then (eng, None)
                 else (emitState
                         (eng\<lparr>state := st\<lparr>currentPos :=
                            \<lparr>word = min (wordOffset + 1) (int (length d) - 1), letter = 0\<rparr>\<rparr>\<rparr>),
                       None))
              else
                case js_index d wordOffset of
                  None \<Rightarrow> (eng, Some TypeError)
                | Some row0 \<Rightarrow>
                    if int (length row0) = letterOffset \<and> int (length d) \<le> wordOffset + 1
                    then endGame eng
                    else
                      let w = (if int (length row0) = letterOffset then wordOffset + 1 else wordOffset);
                          l = (if int (length row0) = letterOffset then 0 else letterOffset)
                      in case js_index d w of
                           None \<Rightarrow> (eng, None)
                         | Some row \<Rightarrow>
                             (case js_index row l of
                                None \<Rightarrow> (eng, None)
                              | Some slot \<Rightarrow>
                                  let slot' = slot\<lparr>typed := True,
                                                   status := Some (if ILetterData.letter slot = key e
                                                                   then Correct else Incorrect)\<rparr>;
                                      eng1 = emitState
                                               (eng\<lparr>state := st\<lparr>data := d[nat w := row[nat l := slot']],
                                                                currentPos := \<lparr>word = w, letter = l + 1\<rparr>\<rparr>\<rparr>)
                                  in if w = int (length d) - 1 \<and> int (length row) \<le> l + 1
                                     then endGame eng1
                                     else (eng1, None)))"


section \<open>The hook \<open>useTyping\<close>\<close>

text \<open>
  The hook keeps the same state record in a React state cell; each function below is the
  state update it performs. Its \<open>createTextdata\<close> compares the word's index with the
  length of the word itself (\<open>word.length - 1\<close>).
\<close>

definition initialState :: IGameState where
  "initialState =
     \<lparr>text = [], data = [], timeLimit = None, counter = 0, isRunning = False,
      isOver = False, currentPos = \<lparr>word = 0, letter = 0\<rparr>\<rparr>"

definition createTextdata_hook :: "string \<Rightarrow> ILetterData list list" where
  "createTextdata_hook txt =
     (let words = split_space txt
      in map (\<lambda>(wordIndex, w).
                let letters = map (\<lambda>c. \<lparr>ILetterData.letter = [c], typed = False, status = None\<rparr>) w
                in if int wordIndex \<noteq> int (length w) - 1 then letters @ [placeholder]
                   else letters)
             (enumerate 0 words))"

definition createNewGame_hook :: "string \<Rightarrow> nat option \<Rightarrow> IGameState \<Rightarrow> IGameState" where
  "createNewGame_hook txt limit game =
     (if isRunning game then game
      else initialState\<lparr>text := txt, data := createTextdata_hook txt, timeLimit := limit\<rparr>)"

definition setTimeLimit :: "nat option \<Rightarrow> IGameState \<Rightarrow> IGameState" where
  "setTimeLimit limit game = game\<lparr>timeLimit := Some (case limit of None \<Rightarrow> 30 | Some t \<Rightarrow> t)\<rparr>"

definition startGame :: "IGameState \<Rightarrow> IGameState" where
  "startGame game = (if isRunning game then game else game\<lparr>isRunning := True\<rparr>)"

text \<open>The interval callback; the interval exists while the game runs and is not over.\<close>

definition counterTick :: "IGameState \<Rightarrow> IGameState" where
  "counterTick game =
     (if isRunning game \<and> \<not> isOver game then game\<lparr>counter := counter game + 1\<rparr> else game)"

text \<open>The effect that ends the game, run after each change of the state.\<close>

definition endConditionEffect :: "IGameState \<Rightarrow> exn + IGameState" where
  "endConditionEffect game =
     (if isRunning game \<and> \<not> isOver game
      then
        let wordOffset = word (currentPos game);
            letterOffset = ITextCoord.letter (currentPos game)
        in if (case timeLimit game of None \<Rightarrow> False | Some t \<Rightarrow> t \<noteq> 0 \<and> counter game = t)
           then Inr (game\<lparr>isRunning := False, isOver := True\<rparr>)
           else if int (length (data game)) - 1 = wordOffset
           then (case js_index (data game) wordOffset of
                   None \<Rightarrow> Inl TypeError
                 | Some row \<Rightarrow>
                     if int (length row) = letterOffset
                     then Inr (game\<lparr>isRunning := False, isOver := True\<rparr>)
                     else Inr game)
           else Inr game
      else Inr game)"

text \<open>One second of the hook: the interval callback, then the effect; \<open>n\<close> seconds in a row.\<close>

definition second_hook :: "IGameState \<Rightarrow> exn + IGameState" where
  "second_hook game = endConditionEffect (counterTick game)"

fun seconds_hook :: "nat \<Rightarrow> IGameState \<Rightarrow> exn + IGameState" where
  "seconds_hook 0 game = Inr game"
| "seconds_hook (Suc n) game =
     (case second_hook game of Inl ex \<Rightarrow> Inl ex | Inr game' \<Rightarrow> seconds_hook n game')"

text \<open>
  \<open>updateGameData\<close> clones the grid and replaces the slot at the offset by the old slot
  merged with the new fields. A write at an index outside the row would grow the array or
  add a property to it; the grid would no longer be rows of slots, and the model stops
  there with \<open>OffGrid\<close>.
\<close>

datatype hook_step = Next IGameState | Threw exn | OffGrid

definition updateGameData ::
  "int \<times> int \<Rightarrow> (ILetterData \<Rightarrow> ILetterData) \<Rightarrow> bool \<Rightarrow> IGameState \<Rightarrow> hook_step" where
  "updateGameData offset merge increment game =
     (case offset of (w, l) \<Rightarrow>
        (case js_index (data game) w of
           None \<Rightarrow> Threw TypeError
         | Some row \<Rightarrow>
             (case js_index row l of
                None \<Rightarrow> OffGrid
              | Some prev \<Rightarrow>
                  Next (game\<lparr>data := (data game)[nat w := row[nat l := merge prev]],
                              currentPos := \<lparr>word = w, letter = l + (if increment then 1 else 0)\<rparr>\<rparr>))))"

definition handleKeyDown :: "IGameState \<Rightarrow> KeyboardEvent \<Rightarrow> hook_step" where
  "handleKeyDown game e =
     (let d = data game;
          wordOffset = word (currentPos game);
          letterOffset = ITextCoord.letter (currentPos game)
      in if key e = ''Backspace'' then
           (if letterOffset = 0 \<and> wordOffset = 0 then Next game
            else
              case (if letterOffset = 0
                    then (let w = max 0 (wordOffset - 1)
                          in case js_index d w of
                               None \<Rightarrow> Inl TypeError
                             | Some row \<Rightarrow> Inr (w, int (length row) - 1))
                    else Inr (wordOffset, letterOffset - 1)) of
                Inl ex \<Rightarrow> Threw ex
              | Inr offset \<Rightarrow>
                  updateGameData offset (\<lambda>prev. prev\<lparr>typed := False, status := None\<rparr>) False game)
         else if key e = '' '' \<or> code e = ''Space'' then
           (if wordOffset = int (length d) then Next game
            else if letterOffset = 0 then Next game
            else Next (game\<lparr>currentPos :=
                         \<lparr>word = min (wordOffset + 1) (int (length d) - 1), letter = 0\<rparr>\<rparr>))
         else
           case js_index d wordOffset of
             None \<Rightarrow> Threw TypeError
           | Some row0 \<Rightarrow>
               let w = (if int (length row0) = letterOffset then wordOffset + 1 else wordOffset);
                   l = (if int (length row0) = letterOffset then 0 else letterOffset)
               in case js_index d w of
                    None \<Rightarrow> Threw TypeError
                  | Some row \<Rightarrow>
                      (case js_index row l of
                         None \<Rightarrow> Threw TypeError
                       | Some letterData \<Rightarrow>
                           updateGameData (w, l)
                             (\<lambda>prev. letterData\<lparr>typed := True,
                                        status := Some (if ILetterData.letter letterData = key e
                                                        then Correct else Incorrect)\<rparr>)
                             True game))"

text \<open>The keydown listener is attached while the game runs and is not over.\<close>

definition keydown :: "IGameState \<Rightarrow> KeyboardEvent \<Rightarrow> hook_step" where
  "keydown game e = (if isRunning game \<and> \<not> isOver game then handleKeyDown game e else Next game)"




section \<open>What the result counts\<close>

text \<open>The slots that stand for a character of the text, and the counts in the spec's words.\<close>

definition real_slots :: "ILetterData list list \<Rightarrow> ILetterData list" where
  "real_slots d = filter (\<lambda>s. ILetterData.letter s \<noteq> []) (concat d)"

definition count_correct :: "ILetterData list list \<Rightarrow> nat" where
  "count_correct d = length (filter (\<lambda>s. status s = Some Correct) (real_slots d))"

definition count_incorrect :: "ILetterData list list \<Rightarrow> nat" where
  "count_incorrect d = length (filter (\<lambda>s. status s = Some Incorrect) (real_slots d))"



text \<open>The quotient of the spec's formula for words per minute, taken exactly.\<close>

definition exact_wpm :: "IGameState \<Rightarrow> rat" where
  "exact_wpm st = (of_nat (count_correct (data st)) / 5) / (of_nat (max 1 (counter st)) / 60)"

section \<open>Keys, slots and reachable engines\<close>

text \<open>The events that reach the last branch of \<open>handleKey\<close>.\<close>

definition printable :: "KeyboardEvent \<Rightarrow> bool" where
  "printable e =
     (key e \<noteq> ''Escape'' \<and> key e \<noteq> ''Backspace'' \<and> key e \<noteq> '' '' \<and> code e \<noteq> ''Space'')"

definition slot_at :: "ILetterData list list \<Rightarrow> int \<Rightarrow> int \<Rightarrow> ILetterData option" where
  "slot_at d w l = (case js_index d w of None \<Rightarrow> None | Some row \<Rightarrow> js_index row l)"










section \<open>Example sessions\<close>

definition new_engine :: TypingEngine where
  "new_engine =
     \<lparr>state = getInitialState, intervalId = None, onStateChangeCallbacks = [],
      onGameOverCallbacks = [], calls = []\<rparr>"

definition press :: "string \<Rightarrow> KeyboardEvent" where
  "press k = \<lparr>key = k, code = k\<rparr>"

definition created_a_b :: TypingEngine where
  "created_a_b = createNewGame ''a b'' None new_engine"

text \<open>
  A hook session on the text \<open>cat dog\<close> with a limit of 30 seconds; after 20 seconds the
  limit is set to 15 through \<open>setTimeLimit\<close>.
\<close>

definition overdue_game :: IGameState where
  "overdue_game =
     setTimeLimit (Some 15)
       (case seconds_hook 20 (startGame (createNewGame_hook ''cat dog'' (Some 30) initialState)) of
          Inr game \<Rightarrow> game | Inl ex \<Rightarrow> initialState)"

text \<open>An engine with two game-over subscribers, the first of which throws.\<close>

definition two_subscribers :: TypingEngine where
  "two_subscribers =
     start 1 (createNewGame ''a b'' None
       (onGameOver (\<lambda>r. None) (onGameOver (\<lambda>r. Some (Thrown ''boom'')) new_engine)))"

definition created_space :: TypingEngine where
  "created_space = createNewGame '' '' None new_engine"

text \<open>Sessions of the engine, given by the keys pressed.\<close>

fun keys :: "string list \<Rightarrow> TypingEngine \<Rightarrow> TypingEngine" where
  "keys [] eng = eng"
| "keys (k # ks) eng = keys ks (fst (handleKey eng (press k)))"






text \<open>Timer ticks, and sessions that differ in what was typed and in the seconds elapsed.\<close>

fun ticks :: "nat \<Rightarrow> TypingEngine \<Rightarrow> TypingEngine" where
  "ticks 0 eng = eng"
| "ticks (Suc n) eng = ticks n (fst (tick eng))"

definition three_in_24 :: TypingEngine where
  "three_in_24 = ticks 24 (keys [''a'', ''b'', ''c''] (start 1 (createNewGame ''abcd'' None new_engine)))"

definition one_in_8 :: TypingEngine where
  "one_in_8 = ticks 8 (keys [''a''] (start 1 (createNewGame ''abcd'' None new_engine)))"


text \<open>
  A hook session given by the keys pressed. The end-condition effect runs after every
  change of the state, so before each key and after the last one.
\<close>

definition settle :: "IGameState \<Rightarrow> IGameState" where
  "settle game = (case endConditionEffect game of Inr game' \<Rightarrow> game' | Inl ex \<Rightarrow> game)"

fun keys_hook :: "string list \<Rightarrow> IGameState \<Rightarrow> IGameState" where
  "keys_hook [] game = settle game"
| "keys_hook (k # ks) game =
     (case keydown (settle game) (press k) of
        Next game' \<Rightarrow> keys_hook ks game'
      | _ \<Rightarrow> settle game)"






text \<open>The text \<open>cat dog\<close> typed without a mistake, the last key after 60 seconds.\<close>

definition scenario_A :: TypingEngine where
  "scenario_A =
     keys [''g'']
       (ticks 60 (keys [''c'', ''a'', ''t'', '' '', ''d'', ''o'']
                    (start 1 (createNewGame ''cat dog'' None new_engine))))"

section \<open>Grid construction\<close>

lemma split_space_nonempty: "split_space t \<noteq> []"
  by (induction t) (auto split: list.splits)


lemma engine_createTextdata_row:
  assumes "i < length (split_space t)"
  shows "createTextdata t ! i =
           map (\<lambda>c. \<lparr>ILetterData.letter = [c], typed = False, status = None\<rparr>) (split_space t ! i)
           @ (if i + 1 = length (split_space t) then [] else [placeholder])"
proof -
  have k: "0 < length (split_space t)"
    using split_space_nonempty [of t] by simp
  have eq: "(int i \<noteq> int (length (split_space t)) - 1) = (i + 1 \<noteq> length (split_space t))"
    using k by linarith
  show ?thesis
    using assms by (simp add: createTextdata_def Let_def nth_enumerate_eq eq)
qed

text \<open>
  C1. The grid has one row per word, every word but the last ends in exactly one
  placeholder and the last word has none. The hook's \<open>createTextdata\<close> breaks this: for the
  text \<open>a b\<close> the first row has no placeholder and the last row has one, because the
  test is \<open>wordIndex !== word.length - 1\<close>. The engine's version, with \<open>words.length\<close>,
  has the property for every text (\<open>engine_createTextdata_row\<close>).
\<close>

theorem hook_createTextdata_a_b:
  "createTextdata_hook ''a b'' =
     [[\<lparr>ILetterData.letter = ''a'', typed = False, status = None\<rparr>],
      [\<lparr>ILetterData.letter = ''b'', typed = False, status = None\<rparr>, placeholder]]"
  by (simp add: createTextdata_hook_def enumerate_eq_zip upt_rec)

section \<open>Lifecycle\<close>

lemma emitState_frame [simp]:
  "state (emitState eng) = state eng"
  "intervalId (emitState eng) = intervalId eng"
  "onStateChangeCallbacks (emitState eng) = onStateChangeCallbacks eng"
  "onGameOverCallbacks (emitState eng) = onGameOverCallbacks eng"
  by (simp_all add: emitState_def)

text \<open>
  C10. On an engine that is not running, \<open>start\<close> sets \<open>isRunning\<close>, clears \<open>isOver\<close> and
  resets the counter, and leaves the text, the grid with its marks, the time limit and the
  caret as they were; on a running engine it changes nothing.
\<close>

theorem start_frame:
  "(\<not> isRunning (state eng) \<longrightarrow>
      isRunning (state (start h eng)) \<and> counter (state (start h eng)) = 0
      \<and> \<not> isOver (state (start h eng))
      \<and> text (state (start h eng)) = text (state eng)
      \<and> data (state (start h eng)) = data (state eng)
      \<and> timeLimit (state (start h eng)) = timeLimit (state eng)
      \<and> currentPos (state (start h eng)) = currentPos (state eng))
   \<and> (isRunning (state eng) \<longrightarrow> start h eng = eng)"
  by (simp add: start_def)


theorem start_frame_witness:
  "\<not> isRunning (state created_a_b)
   \<and> isRunning (state (start 1 created_a_b))
   \<and> counter (state (start 1 created_a_b)) = 0
   \<and> \<not> isOver (state (start 1 created_a_b))
   \<and> data (state (start 1 created_a_b)) = data (state created_a_b)
   \<and> currentPos (state (start 1 created_a_b)) = currentPos (state created_a_b)
   \<and> start 2 (start 1 created_a_b) = start 1 created_a_b"
proof -
  have idle: "\<not> isRunning (state created_a_b)"
    by (simp add: created_a_b_def createNewGame_def new_engine_def getInitialState_def Let_def)
  have first: "isRunning (state (start 1 created_a_b))
      \<and> counter (state (start 1 created_a_b)) = 0
      \<and> \<not> isOver (state (start 1 created_a_b))
      \<and> data (state (start 1 created_a_b)) = data (state created_a_b)
      \<and> currentPos (state (start 1 created_a_b)) = currentPos (state created_a_b)"
    using start_frame [of created_a_b 1] idle by blast
  then have "start 2 (start 1 created_a_b) = start 1 created_a_b"
    using start_frame [of "start 1 created_a_b" 2] by blast
  with idle first show ?thesis by blast
qed

section \<open>Keys while the game is not running\<close>


text \<open>
  C6. A key handled while \<open>isRunning\<close> is false changes nothing. The engine's \<open>handleKey\<close>
  returns early only for an empty grid and for \<open>isOver\<close> (\<open>handleKey_over_or_empty\<close>); it
  never reads \<open>isRunning\<close>. After \<open>createNewGame\<close> and before \<open>start\<close> the key \<open>a\<close> on the
  text \<open>a b\<close> marks the first slot correct and moves the caret.
\<close>

theorem handleKey_before_start:
  "\<not> isRunning (state created_a_b) \<and> \<not> isOver (state created_a_b)
   \<and> currentPos (state created_a_b) = \<lparr>word = 0, letter = 0\<rparr>
   \<and> snd (handleKey created_a_b (press ''a'')) = None
   \<and> \<not> isRunning (state (fst (handleKey created_a_b (press ''a''))))
   \<and> currentPos (state (fst (handleKey created_a_b (press ''a'')))) = \<lparr>word = 0, letter = 1\<rparr>
   \<and> data (state (fst (handleKey created_a_b (press ''a'')))) =
        [[\<lparr>ILetterData.letter = ''a'', typed = True, status = Some Correct\<rparr>, placeholder],
         [\<lparr>ILetterData.letter = ''b'', typed = False, status = None\<rparr>]]"
  by code_simp


section \<open>The time limit\<close>

lemma stop_state [simp]: "state (stop eng) = (state eng)\<lparr>isRunning := False\<rparr>"
  by (simp add: stop_def)

lemma endGame_state:
  "state (fst (endGame eng)) = (state eng)\<lparr>isRunning := False, isOver := True\<rparr>"
  by (simp add: endGame_def Let_def split: prod.splits)

lemma endGame_timer: "intervalId (fst (endGame eng)) = None"
  by (simp add: endGame_def Let_def stop_def split: prod.splits)

text \<open>
  The engine's tick: with a non-zero limit that the incremented counter has reached or
  passed, the session ends, the timer is released and the grid, so the counts of the
  result, are those of before the tick.
\<close>

lemma engine_tick_time_limit:
  assumes "timeLimit (state eng) = Some t" and "t \<noteq> 0" and "t \<le> counter (state eng) + 1"
  shows "isOver (state (fst (tick eng)))"
    and "\<not> isRunning (state (fst (tick eng)))"
    and "intervalId (fst (tick eng)) = None"
    and "data (state (fst (tick eng))) = data (state eng)"
    and "currentPos (state (fst (tick eng))) = currentPos (state eng)"
  using assms by (simp_all add: tick_def Let_def endGame_state endGame_timer)

text \<open>
  The hook's effect ends the game on the time limit only when the counter equals it: with
  the counter past the limit and the caret not at the end it returns the state as it is.
\<close>

lemma hook_effect_past_limit:
  assumes "timeLimit game = Some t" and "t < counter game"
    and "word (currentPos game) \<noteq> int (length (data game)) - 1"
  shows "endConditionEffect game = Inr game"
  using assms by (simp add: endConditionEffect_def Let_def)

text \<open>
  C5. A tick that sees \<open>elapsedSeconds >= timeLimit\<close> ends the session, also when the counter
  is already past the limit. The hook tests \<open>game.counter === game.timeLimit\<close>: in the session
  \<open>overdue_game\<close> (20 seconds elapsed, limit then set to 15, caret at the start of the text)
  the game is still running a hundred seconds later. The engine's tick, with \<open>>=\<close>, ends
  such a session at once (\<open>engine_tick_time_limit\<close>).
\<close>

theorem hook_never_ends_past_limit:
  "isRunning overdue_game \<and> \<not> isOver overdue_game
   \<and> counter overdue_game = 20 \<and> timeLimit overdue_game = Some 15
   \<and> currentPos overdue_game = \<lparr>word = 0, letter = 0\<rparr>
   \<and> seconds_hook 100 overdue_game = Inr (overdue_game\<lparr>counter := 120\<rparr>)"
  by code_simp

section \<open>Subscribers\<close>

lemma emit_loop_invokes_all:
  "stateChange_invoked (emit_loop cbs k st) = [k..<k + length cbs]"
proof (induction cbs arbitrary: k)
  case Nil
  then show ?case by simp
next
  case (Cons cb cbs)
  have "stateChange_invoked (emit_loop (cb # cbs) k st) = k # stateChange_invoked (emit_loop cbs (Suc k) st)"
    by (cases "cb st") simp_all
  then show ?case
    by (simp add: Cons.IH upt_rec)
qed

lemma stateChange_invoked_append:
  "stateChange_invoked (xs @ ys) = stateChange_invoked xs @ stateChange_invoked ys"
  by (induction xs rule: stateChange_invoked.induct) simp_all

text \<open>
  A state-change notification reaches every subscriber, whichever of them throw, and
  \<open>emitState\<close> itself returns: the state and the subscriber lists are untouched.
\<close>

lemma emitState_invokes_all:
  "stateChange_invoked (calls (emitState eng)) =
     stateChange_invoked (calls eng) @ [0..<length (onStateChangeCallbacks eng)]"
  using emit_loop_invokes_all [of "onStateChangeCallbacks eng" 0 "state eng"]
  by (simp add: emitState_def stateChange_invoked_append)

text \<open>
  C9. A subscriber that throws does not keep the remaining subscribers from being called,
  for state-change and game-over notifications alike. \<open>emitState\<close> wraps each call in
  \<open>try\<close>/\<open>catch\<close> (\<open>emitState_invokes_all\<close>), but \<open>endGame\<close> calls the game-over subscribers
  with a bare \<open>forEach\<close>: with two subscribers of which the first throws, Escape ends the
  game, the second subscriber is never called and the exception leaves \<open>handleKey\<close>.
\<close>

theorem gameOver_throw_skips_rest:
  "length (onGameOverCallbacks two_subscribers) = 2
   \<and> snd (handleKey two_subscribers (press ''Escape'')) = Some (Thrown ''boom'')
   \<and> gameOver_invoked (calls (fst (handleKey two_subscribers (press ''Escape'')))) = [0]
   \<and> isOver (state (fst (handleKey two_subscribers (press ''Escape''))))
   \<and> \<not> isRunning (state (fst (handleKey two_subscribers (press ''Escape''))))"
  by code_simp


section \<open>The counts of the result\<close>

lemma count_word_eq:
  "count_word w (c, i, t) =
     (c + length (filter (\<lambda>s. status s = Some Correct) (filter (\<lambda>s. ILetterData.letter s \<noteq> []) w)),
      i + length (filter (\<lambda>s. status s = Some Incorrect) (filter (\<lambda>s. ILetterData.letter s \<noteq> []) w)),
      t + length (filter (\<lambda>s. ILetterData.letter s \<noteq> []) w))"
  by (induction w arbitrary: c i t) simp_all

lemma count_data_eq:
  "count_data d (c, i, t) =
     (c + count_correct d, i + count_incorrect d, t + length (real_slots d))"
proof (induction d arbitrary: c i t)
  case Nil
  then show ?case
    by (simp add: count_correct_def count_incorrect_def real_slots_def)
next
  case (Cons w ws)
  show ?case
    by (simp add: count_word_eq Cons.IH)
       (simp add: count_correct_def count_incorrect_def real_slots_def)
qed


text \<open>
  C8, as the code has it. \<open>total\<close> is the number of non-placeholder slots when there is at
  least one, and the length of the text otherwise: the fallback is decided by the count, not
  by the grid being empty.
\<close>

theorem getResult_total:
  "total (getResult st) =
     (if 0 < length (real_slots (data st)) then length (real_slots (data st))
      else length (text st))"
  by (simp add: getResult_def count_data_eq Let_def)

text \<open>
  C8 as stated fails on the text that is one space: the grid has two rows, the first a
  lone placeholder, so it is not empty and has no non-placeholder slot, and \<open>total\<close> is the
  length of the text, 1.
\<close>

theorem getResult_total_counterexample:
  "data (state created_space) = [[placeholder], []]
   \<and> length (real_slots (data (state created_space))) = 0
   \<and> total (getResult (state created_space)) = 1"
  by code_simp


section \<open>Marks written by keys\<close>



















text \<open>The hook's listener does nothing unless the game runs; without a grid its handler throws.\<close>

lemma hook_keydown_not_running:
  "\<not> isRunning game \<or> isOver game \<Longrightarrow> keydown game e = Next game"
  by (auto simp add: keydown_def)

lemma hook_keydown_no_game:
  "keydown (startGame initialState) (press ''a'') = Threw TypeError"
  by code_simp

text \<open>
  On the hook's grid for \<open>a b\<close> the placeholder is the last slot of the last row; the third
  key marks it and, the caret being at the end, the effect then ends the game.
\<close>

lemma hook_marks_placeholder:
  "slot_at (data (keys_hook [''a'', ''b'', ''y''] (startGame (createNewGame_hook ''a b'' None initialState)))) 1 1
     = Some \<lparr>ILetterData.letter = [], typed = True, status = Some Incorrect\<rparr>
   \<and> isOver (keys_hook [''a'', ''b'', ''y''] (startGame (createNewGame_hook ''a b'' None initialState)))"
  by code_simp

section \<open>Keys on a missing slot\<close>





lemma handleKey_desync_word:
  assumes "data (state eng) \<noteq> []" and "\<not> isOver (state eng)" and "printable e"
    and "js_index (data (state eng)) (word (currentPos (state eng))) = None"
  shows "handleKey eng e = (eng, Some TypeError)"
  using assms by (simp add: handleKey_def Let_def printable_def)





section \<open>Double arithmetic\<close>

text \<open>
  The exponent found by \<open>ilog2\<close> is the binade of its argument; rounding to a double is off
  by at most half a unit in the last place, and exact on what is a double already.
\<close>

lemma bitlen_powi:
  assumes "0 < p"
  shows "(2::rat) powi (bitlen p - 1) \<le> of_int p" and "of_int p < (2::rat) powi (bitlen p)"
proof -
  have b: "1 \<le> bitlen p" using assms by (simp add: bitlen_alt_def)
  have "2 ^ nat (bitlen p - 1) \<le> p" and "p < 2 ^ nat (bitlen p)"
    using bitlen_bounds [OF assms] by auto
  then have "(of_int (2 ^ nat (bitlen p - 1)) :: rat) \<le> of_int p"
    and "(of_int p :: rat) < of_int (2 ^ nat (bitlen p))"
    by (simp_all only: of_int_le_iff of_int_less_iff)
  then show "(2::rat) powi (bitlen p - 1) \<le> of_int p" and "of_int p < (2::rat) powi (bitlen p)"
    using b by (simp_all add: power_int_def)
qed

lemma ilog2_bounds:
  assumes "0 < x"
  shows "2 powi (ilog2 x) \<le> x" and "x < 2 powi (ilog2 x + 1)"
proof -
  obtain p q where pq: "quotient_of x = (p, q)" by (cases "quotient_of x")
  have q: "0 < q" using pq by (rule quotient_of_denom_pos)
  have x: "x = of_int p / of_int q" using pq by (rule quotient_of_div)
  have p: "0 < p" using assms q x by (simp add: zero_less_divide_iff)
  let ?k = "bitlen p - bitlen q"
  have qr: "(0::rat) < of_int q" using q by simp
  have up: "x < 2 powi (?k + 1)"
  proof -
    have "of_int p < (2::rat) powi (bitlen p)" using p by (rule bitlen_powi)
    moreover have "(2::rat) powi (bitlen q - 1) \<le> of_int q" using q by (rule bitlen_powi)
    ultimately have "of_int p * (2::rat) powi (bitlen q - 1) < 2 powi (bitlen p) * of_int q"
      by (intro mult_less_le_imp_less) (use p q in auto)
    then have "x * 2 powi (bitlen q - 1) < 2 powi (bitlen p)"
      using qr by (simp add: x field_simps)
    then have "x < 2 powi (bitlen p) / 2 powi (bitlen q - 1)"
      by (simp add: pos_less_divide_eq)
    also have "\<dots> = 2 powi (?k + 1)"
      by (simp add: power_int_diff [symmetric] algebra_simps)
    finally show ?thesis .
  qed
  have lo: "2 powi (?k - 1) < x"
  proof -
    have "(2::rat) powi (bitlen p - 1) \<le> of_int p" using p by (rule bitlen_powi)
    moreover have "of_int q < (2::rat) powi (bitlen q)" using q by (rule bitlen_powi)
    ultimately have "(2::rat) powi (bitlen p - 1) * of_int q < of_int p * 2 powi (bitlen q)"
      by (intro mult_le_less_imp_less) (use p q in auto)
    then have "(2::rat) powi (bitlen p - 1) < x * 2 powi (bitlen q)"
      using qr by (simp add: x field_simps)
    then have "(2::rat) powi (bitlen p - 1) / 2 powi (bitlen q) < x"
      by (simp add: pos_divide_less_eq)
    moreover have "(2::rat) powi (bitlen p - 1) / 2 powi (bitlen q) = 2 powi (?k - 1)"
      by (simp add: power_int_diff [symmetric] algebra_simps)
    ultimately show ?thesis by simp
  qed
  have il: "ilog2 x = (if 2 powi ?k \<le> x then ?k else ?k - 1)"
    by (simp add: ilog2_def pq Let_def)
  show "2 powi (ilog2 x) \<le> x"
    using lo by (simp add: il)
  show "x < 2 powi (ilog2 x + 1)"
    using up by (auto simp add: il not_le)
qed

lemma round_half_even_cases:
  "round_half_even m = \<lfloor>m\<rfloor> \<and> m - of_int \<lfloor>m\<rfloor> \<le> 1 / 2
   \<or> round_half_even m = \<lfloor>m\<rfloor> + 1 \<and> 1 / 2 \<le> m - of_int \<lfloor>m\<rfloor>"
  unfolding round_half_even_def Let_def by auto

lemma round_half_even_error: "\<bar>of_int (round_half_even m) - m\<bar> \<le> 1 / 2"
proof -
  have "of_int \<lfloor>m\<rfloor> \<le> m" and "m < of_int \<lfloor>m\<rfloor> + 1"
    using floor_correct [of m] by auto
  with round_half_even_cases [of m] show ?thesis
    by (elim disjE conjE) (simp_all add: abs_if, linarith+)
qed


lemma round_half_even_le:
  assumes "m \<le> of_int M"
  shows "round_half_even m \<le> M"
proof (cases "m = of_int \<lfloor>m\<rfloor>")
  case True
  then have "round_half_even m = \<lfloor>m\<rfloor>" by (simp add: round_half_even_def Let_def)
  then show ?thesis using assms by (simp add: floor_le_iff)
next
  case False
  then have "of_int \<lfloor>m\<rfloor> < m" using of_int_floor_le [of m] by linarith
  then have "\<lfloor>m\<rfloor> < M" using assms by linarith
  moreover have "round_half_even m \<le> \<lfloor>m\<rfloor> + 1"
    by (simp add: round_half_even_def Let_def)
  ultimately show ?thesis by linarith
qed

lemma round_half_even_nonneg: "0 \<le> m \<Longrightarrow> 0 \<le> round_half_even m"
  by (simp add: round_half_even_def Let_def)


lemma fl_pos_eq:
  assumes "0 < x"
  shows "fl x = of_int (round_half_even (x / 2 powi (ilog2 x - 52))) * 2 powi (ilog2 x - 52)"
  using assms by (simp add: fl_def Let_def)

lemma fl_error:
  assumes "0 < x"
  shows "\<bar>fl x - x\<bar> \<le> 2 powi (ilog2 x - 53)"
proof -
  let ?u = "(2::rat) powi (ilog2 x - 52)"
  have u: "0 < ?u" by simp
  have "fl x - x = (of_int (round_half_even (x / ?u)) - x / ?u) * ?u"
    using u by (simp add: fl_pos_eq [OF assms] algebra_simps)
  then have "\<bar>fl x - x\<bar> = \<bar>of_int (round_half_even (x / ?u)) - x / ?u\<bar> * ?u"
    using u by (simp add: abs_mult)
  also have "\<dots> \<le> (1 / 2) * ?u"
    using round_half_even_error [of "x / ?u"] u by (intro mult_right_mono) simp_all
  also have "(1 / 2) * ?u = 2 powi (ilog2 x - 53)"
  proof -
    have "(2::rat) powi (ilog2 x - 52) = 2 powi (ilog2 x - 53 + 1)" by simp
    also have "\<dots> = 2 powi (ilog2 x - 53) * 2" by (subst power_int_add_1) simp_all
    finally show ?thesis by simp
  qed
  finally show ?thesis .
qed



lemma powi_neg_exp:
  assumes "e \<le> n"
  shows "(1::rat) / 2 powi (e - n) = of_int (2 ^ nat (n - e))"
proof -
  have "(1::rat) / 2 powi (e - n) = 2 powi (n - e)"
    by (simp add: power_int_minus [symmetric] field_simps power_int_diff)
  also have "\<dots> = 2 ^ nat (n - e)"
    using assms by (simp add: power_int_def)
  finally show ?thesis by simp
qed

lemma fl_le_int:
  assumes "0 < x" and "x \<le> of_int N" and "ilog2 x \<le> 52"
  shows "fl x \<le> of_int N"
proof -
  let ?u = "(2::rat) powi (ilog2 x - 52)"
  have u: "0 < ?u" by simp
  have inv: "1 / ?u = of_int (2 ^ nat (52 - ilog2 x))"
    using assms(3) by (rule powi_neg_exp)
  have "x / ?u \<le> of_int N / ?u"
    using assms(2) u by (simp add: divide_right_mono)
  also have "of_int N / ?u = of_int (N * 2 ^ nat (52 - ilog2 x))"
    using inv by (simp add: field_simps)
  finally have "round_half_even (x / ?u) \<le> N * 2 ^ nat (52 - ilog2 x)"
    by (rule round_half_even_le)
  then have "(of_int (round_half_even (x / ?u)) :: rat) \<le> of_int (N * 2 ^ nat (52 - ilog2 x))"
    by (simp only: of_int_le_iff)
  then have "of_int (round_half_even (x / ?u)) * ?u \<le> of_int (N * 2 ^ nat (52 - ilog2 x)) * ?u"
    using u by (intro mult_right_mono) simp_all
  also have "of_int (N * 2 ^ nat (52 - ilog2 x)) * ?u = of_int N * ((1 / ?u) * ?u)"
    by (simp add: inv)
  also have "\<dots> = of_int N" using u by simp
  finally show ?thesis by (simp add: fl_pos_eq [OF assms(1)])
qed

lemma fl_nonneg:
  assumes "0 \<le> x"
  shows "0 \<le> fl x"
proof (cases "x = 0")
  case True
  then show ?thesis by (simp add: fl_def)
next
  case False
  then have x: "0 < x" using assms by simp
  have "0 \<le> round_half_even (x / 2 powi (ilog2 x - 52))"
    using x by (intro round_half_even_nonneg) simp
  then show ?thesis by (simp add: fl_pos_eq [OF x])
qed



lemma fl_rel_error:
  assumes "0 < y"
  shows "fl y \<le> y * (1 + 1 / 2 ^ 53)" and "y * (1 - 1 / 2 ^ 53) \<le> fl y"
proof -
  have "(2::rat) powi (ilog2 y - 53) = 2 powi (ilog2 y) / 2 ^ 53"
    by (simp add: power_int_diff)
  also have "\<dots> \<le> y / 2 ^ 53"
    using ilog2_bounds(1) [OF assms] by (simp add: divide_right_mono)
  finally have "\<bar>fl y - y\<bar> \<le> y / 2 ^ 53"
    using fl_error [OF assms] by linarith
  then have "fl y - y \<le> y / 2 ^ 53" and "- (fl y - y) \<le> y / 2 ^ 53"
    by (simp_all only: abs_le_iff)
  then show "fl y \<le> y * (1 + 1 / 2 ^ 53)" and "y * (1 - 1 / 2 ^ 53) \<le> fl y"
    by (simp_all add: algebra_simps)
qed

lemma fl_pos:
  assumes "0 < y"
  shows "0 < fl y"
proof -
  have "0 < y * (1 - 1 / 2 ^ 53)" using assms by simp
  with fl_rel_error(2) [OF assms] show ?thesis by linarith
qed


lemma floor_half_unique:
  assumes "of_int r - 1 / 2 \<le> y" and "y < of_int r + 1 / 2"
  shows "js_round y = r"
  unfolding js_round_def using assms by (intro floor_unique) linarith+

lemma int_gap:
  assumes "0 < (of_int n :: rat) / of_int d" and "0 < d"
  shows "1 / of_int d \<le> (of_int n :: rat) / of_int d"
proof -
  have "0 < n" using assms by (simp add: zero_less_divide_iff)
  then have "(1::rat) \<le> of_int n" by simp
  then show ?thesis using assms(2) by (simp add: divide_right_mono)
qed



section \<open>Accuracy\<close>














section \<open>Words per minute\<close>

text \<open>
  Each rounding to a double changes its argument by a factor within 1 plus or minus
  \<open>2 ^ -53\<close>. Three of them move the quotient by less than its distance to the nearest tie, unless the exact
  quotient is a tie itself.
\<close>

lemma js_round_fdiv3_exact:
  fixes c e :: nat
  defines "Q \<equiv> (of_nat c / 5) / (of_nat e / 60) :: rat"
  assumes c: "c \<le> 2 ^ 45" and e: "0 < e" and nontie: "Q \<noteq> of_int (round Q) - 1 / 2"
  shows "js_round (fdiv (fdiv (of_nat c) 5) (fdiv (of_nat e) 60)) = round Q"
proof (cases "c = 0")
  case True
  have "\<lfloor>(1 / 2 :: rat)\<rfloor> = 0" by (rule floor_unique) simp_all
  with True show ?thesis by (simp add: fdiv_def fl_def js_round_def Q_def)
next
  case False
  define u :: rat where "u = 1 / 2 ^ 53"
  define A :: rat where "A = of_nat c / 5"
  define B :: rat where "B = of_nat e / 60"
  define a where "a = fl A"
  define b where "b = fl B"
  define q where "q = fl (a / b)"
  define r where "r = round Q"
  have u: "0 < u" "u < 1" by (simp_all add: u_def)
  have A: "0 < A" using False by (simp add: A_def)
  have B: "0 < B" using e by (simp add: B_def)
  have Q: "Q = A / B" by (simp add: Q_def A_def B_def)
  have a: "a \<le> A * (1 + u)" "A * (1 - u) \<le> a" "0 < a"
    using fl_rel_error [OF A] fl_pos [OF A] by (simp_all add: a_def u_def)
  have b: "b \<le> B * (1 + u)" "B * (1 - u) \<le> b" "0 < b"
    using fl_rel_error [OF B] fl_pos [OF B] by (simp_all add: b_def u_def)
  have y: "0 < a / b" using a(3) b(3) by simp
  have q: "q \<le> (a / b) * (1 + u)" "(a / b) * (1 - u) \<le> q"
    using fl_rel_error [OF y] by (simp_all add: q_def u_def)
  have qb1: "q * b \<le> a * (1 + u)"
    using q(1) b(3) by (simp add: pos_le_divide_eq)
  have qb2: "a * (1 - u) \<le> q * b"
    using q(2) b(3) by (simp add: pos_divide_le_eq)
  have fl1: "of_int \<lfloor>Q + 1 / 2\<rfloor> \<le> Q + 1 / 2"
    by (rule of_int_floor_le)
  have fl2: "Q + 1 / 2 < of_int \<lfloor>Q + 1 / 2\<rfloor> + 1"
    using floor_correct [of "Q + 1 / 2"] by (simp only: of_int_add of_int_1)
  have r: "of_int r - 1 / 2 < Q" "Q < of_int r + 1 / 2"
    using fl1 fl2 nontie unfolding r_def round_def by linarith+
  have er: "(0::rat) < of_int (2 * int e)" using e by simp
  have gB: "B / of_int (2 * int e) = 1 / 120"
    using e by (simp add: B_def)
  have hi: "A + 1 / 120 \<le> (of_int r + 1 / 2) * B"
  proof -
    have "of_int r + 1 / 2 - Q = of_int ((2 * r + 1) * int e - 24 * int c) / of_int (2 * int e)"
      using e by (simp add: Q_def field_simps)
    moreover have "0 < of_int r + 1 / 2 - Q" using r(2) by simp
    ultimately have "1 / of_int (2 * int e) \<le> of_int r + 1 / 2 - Q"
      using int_gap [of "(2 * r + 1) * int e - 24 * int c" "2 * int e"] e by simp
    then have "(1 / of_int (2 * int e)) * B \<le> (of_int r + 1 / 2 - Q) * B"
      using B by (simp only: mult_right_mono less_imp_le)
    moreover have "(1 / of_int (2 * int e)) * B = 1 / 120" using gB by simp
    moreover have "(of_int r + 1 / 2 - Q) * B = (of_int r + 1 / 2) * B - A"
      using B by (simp add: Q algebra_simps)
    ultimately show ?thesis by linarith
  qed
  have lo: "(of_int r - 1 / 2) * B \<le> A - 1 / 120"
  proof -
    have "Q - (of_int r - 1 / 2) = of_int (24 * int c - (2 * r - 1) * int e) / of_int (2 * int e)"
      using e by (simp add: Q_def field_simps)
    moreover have "0 < Q - (of_int r - 1 / 2)" using r(1) by simp
    ultimately have "1 / of_int (2 * int e) \<le> Q - (of_int r - 1 / 2)"
      using int_gap [of "24 * int c - (2 * r - 1) * int e" "2 * int e"] e by simp
    then have "(1 / of_int (2 * int e)) * B \<le> (Q - (of_int r - 1 / 2)) * B"
      using B by (simp only: mult_right_mono less_imp_le)
    moreover have "(1 / of_int (2 * int e)) * B = 1 / 120" using gB by simp
    moreover have "(Q - (of_int r - 1 / 2)) * B = A - (of_int r - 1 / 2) * B"
      using B by (simp add: Q algebra_simps)
    ultimately show ?thesis by linarith
  qed
  have cA: "A \<le> 2 ^ 45 / 5"
  proof -
    have "(of_nat c :: rat) \<le> of_nat (2 ^ 45)" using c by (simp only: of_nat_le_iff)
    then show ?thesis by (simp add: A_def)
  qed
  have U: "A * (1 + u) * (1 + u) < (A + 1 / 120) * (1 - u)"
    using cA A unfolding u_def by (simp add: algebra_simps)
  have L: "(A - 1 / 120) * (1 + u) < A * (1 - u) * (1 - u)"
    using cA A unfolding u_def by (simp add: algebra_simps)
  have rpos: "0 \<le> r"
  proof -
    have "0 < Q" using A B by (simp add: Q)
    then show ?thesis unfolding r_def round_def by (simp add: le_floor_iff)
  qed
  have upper: "q < of_int r + 1 / 2"
  proof -
    have "q * b \<le> A * (1 + u) * (1 + u)"
    proof -
      have "a * (1 + u) \<le> A * (1 + u) * (1 + u)" using a(1) u by (simp add: mult_right_mono)
      with qb1 show ?thesis by linarith
    qed
    also have "\<dots> < (A + 1 / 120) * (1 - u)" by (rule U)
    also have "\<dots> \<le> (of_int r + 1 / 2) * B * (1 - u)"
      using hi u by (simp add: mult_right_mono)
    also have "\<dots> = (of_int r + 1 / 2) * (B * (1 - u))" by simp
    also have "\<dots> \<le> (of_int r + 1 / 2) * b"
      using b(2) rpos by (intro mult_left_mono) simp_all
    finally have "q * b < (of_int r + 1 / 2) * b" .
    then show ?thesis using b(3) by (simp only: mult_less_cancel_right_pos)
  qed
  have lower: "of_int r - 1 / 2 \<le> q"
  proof (cases "of_int r - 1 / 2 \<le> (0::rat)")
    case True
    have "0 \<le> q" unfolding q_def using y by (intro fl_nonneg) simp
    with True show ?thesis by linarith
  next
    case False
    then have S: "(0::rat) \<le> of_int r - 1 / 2" by simp
    have "(of_int r - 1 / 2) * b \<le> (of_int r - 1 / 2) * (B * (1 + u))"
      using b(1) S by (intro mult_left_mono) simp_all
    also have "\<dots> = (of_int r - 1 / 2) * B * (1 + u)" by simp
    also have "\<dots> \<le> (A - 1 / 120) * (1 + u)"
      using lo u by (simp add: mult_right_mono)
    also have "\<dots> < A * (1 - u) * (1 - u)" by (rule L)
    also have "\<dots> \<le> a * (1 - u)"
      using a(2) u by (simp add: mult_right_mono)
    also have "\<dots> \<le> q * b" by (rule qb2)
    finally have "(of_int r - 1 / 2) * b < q * b" .
    then have "of_int r - 1 / 2 < q" using b(3) by (simp only: mult_less_cancel_right_pos)
    then show ?thesis by simp
  qed
  have "js_round q = r" using lower upper by (rule floor_half_unique)
  then show ?thesis
    by (simp add: q_def a_def b_def A_def B_def r_def fdiv_def)
qed


text \<open>
  C3, as the code has it. \<open>wpm\<close> is \<open>Math.round\<close> of \<open>(correct / 5) / (elapsedSeconds / 60)\<close>
  with each of the three divisions rounded to a double, where \<open>correct\<close> counts the
  non-placeholder slots marked correct and \<open>elapsedSeconds\<close> is at least 1: a function of
  these two numbers only. It is the rounding of the exact quotient whenever that quotient
  is not halfway between two integers (for up to \<open>2 ^ 45\<close> correct slots).
\<close>

theorem wpm_formula:
  "wpm (getResult st) =
     Finite (of_int (js_round (fdiv (fdiv (of_nat (count_correct (data st))) 5)
                                    (fdiv (of_nat (max 1 (counter st))) 60))))
   \<and> (count_correct (data st) \<le> 2 ^ 45
        \<and> exact_wpm st \<noteq> of_int (round (exact_wpm st)) - 1 / 2
      \<longrightarrow> wpm (getResult st) = Finite (of_int (round (exact_wpm st))))"
proof -
  have w: "wpm (getResult st) =
     Finite (of_int (js_round (fdiv (fdiv (of_nat (count_correct (data st))) 5)
                                    (fdiv (of_nat (max 1 (counter st))) 60))))"
    by (simp add: getResult_def count_data_eq Let_def)
  have "js_round (fdiv (fdiv (of_nat (count_correct (data st))) 5)
                       (fdiv (of_nat (max 1 (counter st))) 60)) = round (exact_wpm st)"
    if "count_correct (data st) \<le> 2 ^ 45"
      and "exact_wpm st \<noteq> of_int (round (exact_wpm st)) - 1 / 2"
    using that unfolding exact_wpm_def by (intro js_round_fdiv3_exact) simp_all
  with w show ?thesis by simp
qed

theorem wpm_formula_witness:
  "count_correct (data (state scenario_A)) = 6 \<and> counter (state scenario_A) = 60
   \<and> isOver (state scenario_A)
   \<and> exact_wpm (state scenario_A) = 6 / 5
   \<and> wpm (getResult (state scenario_A)) = Finite 1"
proof -
  have c: "count_correct (data (state scenario_A)) = 6" and e: "counter (state scenario_A) = 60"
    and o: "isOver (state scenario_A)"
    by code_simp+
  have q: "exact_wpm (state scenario_A) = 6 / 5"
    by (simp add: exact_wpm_def c e)
  have r: "round (6 / 5 :: rat) = 1"
    by (rule round_unique) simp_all
  have "count_correct (data (state scenario_A)) \<le> 2 ^ 45
      \<and> exact_wpm (state scenario_A) \<noteq> of_int (round (exact_wpm (state scenario_A))) - 1 / 2"
    by (simp add: c q r)
  with wpm_formula [of "state scenario_A"]
  have "wpm (getResult (state scenario_A)) = Finite (of_int (round (exact_wpm (state scenario_A))))"
    by blast
  then have "wpm (getResult (state scenario_A)) = Finite 1"
    by (simp add: q r)
  with c e o q show ?thesis by blast
qed

text \<open>
  C3 as stated, with the quotient taken exactly, fails where the exact quotient is
  halfway between two integers: 3 correct characters in 24 seconds and 1 correct character
  in 8 seconds both give exactly 1.5, and the engine reports 1 for the first and 2 for the
  second.
\<close>

theorem wpm_counterexample:
  "correct (getResult (state three_in_24)) = 3 \<and> counter (state three_in_24) = 24
   \<and> exact_wpm (state three_in_24) = 3 / 2
   \<and> round (exact_wpm (state three_in_24)) = 2
   \<and> wpm (getResult (state three_in_24)) = Finite 1
   \<and> correct (getResult (state one_in_8)) = 1 \<and> counter (state one_in_8) = 8
   \<and> exact_wpm (state one_in_8) = 3 / 2
   \<and> wpm (getResult (state one_in_8)) = Finite 2"
  by code_simp

end
